theory Spec2Isabelle
  imports Main
begin

section \<open>Library functions called by package runner\<close>

text \<open>
  Go strings are byte sequences, so they are modelled as \<open>string\<close> (a list of 8-bit
  characters). The three standard-library functions that \<open>configureRcodes\<close> calls are
  modelled here from their documented behaviour.
\<close>

subsection \<open>strings.ToLower\<close>

text \<open>
  \<open>strings.ToLower\<close> maps the bytes \<open>'A'..'Z'\<close> to \<open>'a'..'z'\<close> when the string is pure
  ASCII. A string with a byte above 0x7F is lower-cased rune by rune through the Unicode
  tables; that path is a parameter (\<open>unicodeLower\<close> of the world below), so that
  nothing proved here depends on it.
\<close>

definition isASCII :: "string \<Rightarrow> bool" where
  "isASCII s = list_all (\<lambda>c. (of_char c :: nat) < 128) s"

definition lowerByte :: "char \<Rightarrow> char" where
  "lowerByte c =
     (if (65::nat) \<le> of_char c \<and> of_char c \<le> (90::nat)
      then char_of (of_char c + (32::nat)) else c)"

definition ToLower :: "(string \<Rightarrow> string) \<Rightarrow> string \<Rightarrow> string" where
  "ToLower uni s = (if isASCII s then map lowerByte s else uni s)"

subsection \<open>strings.Split\<close>

text \<open>
  \<open>strings.Split(s, ",")\<close> cuts \<open>s\<close> at every separator and returns the pieces in between:
  one more piece than there are separators, so the empty string gives one empty piece.
  The scan keeps the piece read so far in \<open>cur\<close>.
\<close>

fun genSplit :: "string \<Rightarrow> char \<Rightarrow> string \<Rightarrow> string list" where
  "genSplit [] sep cur = [cur]"
| "genSplit (c # cs) sep cur =
     (if c = sep then cur # genSplit cs sep [] else genSplit cs sep (cur @ [c]))"

definition Split :: "string \<Rightarrow> char \<Rightarrow> string list" where
  "Split s sep = genSplit s sep []"

subsection \<open>strconv.Atoi\<close>

text \<open>
  \<open>strconv.Atoi\<close> accepts an optional sign followed by one or more decimal digits and
  fails on anything else, and on a value outside the range of \<open>int\<close> (64 bits here).
  \<open>None\<close> stands for a non-nil error.
\<close>

definition isDigit :: "char \<Rightarrow> bool" where
  "isDigit ch = ((48::nat) \<le> of_char ch \<and> of_char ch \<le> (57::nat))"

definition decimal :: "string \<Rightarrow> int" where
  "decimal ds = foldl (\<lambda>n ch. n * 10 + (int (of_char ch) - 48)) 0 ds"

definition minInt :: int where
  "minInt = - (2 ^ 63)"

definition maxInt :: int where
  "maxInt = 2 ^ 63 - 1"

definition Atoi :: "string \<Rightarrow> int option" where
  "Atoi s =
     (let neg = (s \<noteq> [] \<and> hd s = CHR ''-'');
          ds = (if s \<noteq> [] \<and> (hd s = CHR ''-'' \<or> hd s = CHR ''+'') then tl s else s)
      in if ds = [] \<or> \<not> list_all isDigit ds then None
         else let n = (if neg then - decimal ds else decimal ds)
              in if n < minInt \<or> maxInt < n then None else Some n)"

section \<open>The data model\<close>

text \<open>
  Everything outside the source file is collected in a world: the Unicode path of
  \<open>strings.ToLower\<close>, the file system as \<open>fileutil.FileExists\<close> and \<open>goconfig.Load\<close> see
  it, the zero value of the \<open>ResumeCfg\<close> struct (a type parameter: the struct is declared
  in another file), and the package constants \<open>stdinMarker\<close> and \<open>Version\<close>.
  \<open>goconfig.Load\<close> receives the pointer to fill and the file name, and returns its error
  (\<open>None\<close> is nil) together with what the pointer holds afterwards.
\<close>

record 'c world =
  unicodeLower :: "string \<Rightarrow> string"
  FileExists :: "string \<Rightarrow> bool"
  Load :: "'c option \<Rightarrow> string \<Rightarrow> string option \<times> 'c option"
  zeroResumeCfg :: 'c
  stdinMarker :: string
  Version_const :: string

definition DefaultResumeFile :: string where
  "DefaultResumeFile = ''resume.cfg''"

text \<open>
  The fields of \<open>Options\<close> that the functions below read or write. The remaining fields
  of the struct (resolvers, threads, rate limit, retries, output, record-type toggles,
  trace and wildcard settings, statistics, flush interval, hosts file) are only bound to
  flags in this file. The map \<open>rcodes\<close> has the empty struct as value type, so it is a
  set of keys; the pointer \<open>resumeCfg\<close> is an option, \<open>None\<close> being nil.
\<close>

record 'c Options =
  Hosts :: string
  Domains :: string
  WordList :: string
  Silent :: bool
  Verbose :: bool
  Version :: bool
  Response :: bool
  ResponseOnly :: bool
  rcodes :: "int set"
  RCode :: string
  hasRCodes :: bool
  Resume :: bool
  resumeCfg :: "'c option"

section \<open>Resume state\<close>

definition ShouldLoadResume :: "'c world \<Rightarrow> 'c Options \<Rightarrow> bool" where
  "ShouldLoadResume w options = (Resume options \<and> FileExists w DefaultResumeFile)"

definition ShouldSaveResume :: "'c Options \<Rightarrow> bool" where
  "ShouldSaveResume options = True"

definition configureResume :: "'c world \<Rightarrow> 'c Options \<Rightarrow> string option \<times> 'c Options" where
  "configureResume w options =
     (let options = options\<lparr>resumeCfg := Some (zeroResumeCfg w)\<rparr>
      in if Resume options \<and> FileExists w DefaultResumeFile
         then (case Load w (resumeCfg options) DefaultResumeFile of
                 (err, cfg) \<Rightarrow> (err, options\<lparr>resumeCfg := cfg\<rparr>))
         else (None, options))"

section \<open>Response codes\<close>

text \<open>
  The body of the loop of \<open>configureRcodes\<close> is a switch on the lower-cased token with
  three ways out: \<open>continue\<close>, a code to store, or the error return.
\<close>

datatype step = Continue | Code int | Fail

definition rcode_switch :: "'c world \<Rightarrow> string \<Rightarrow> step" where
  "rcode_switch w rcode =
     (let l = ToLower (unicodeLower w) rcode in
      if l = '''' then Continue
      else if l = ''noerror'' then Code 0
      else if l = ''formerr'' then Code 1
      else if l = ''servfail'' then Code 2
      else if l = ''nxdomain'' then Code 3
      else if l = ''notimp'' then Code 4
      else if l = ''refused'' then Code 5
      else if l = ''yxdomain'' then Code 6
      else if l = ''yxrrset'' then Code 7
      else if l = ''nxrrset'' then Code 8
      else if l = ''notauth'' then Code 9
      else if l = ''notzone'' then Code 10
      else if l = ''badsig'' \<or> l = ''badvers'' then Code 16
      else if l = ''badkey'' then Code 17
      else if l = ''badtime'' then Code 18
      else if l = ''badmode'' then Code 19
      else if l = ''badname'' then Code 20
      else if l = ''badalg'' then Code 21
      else if l = ''badtrunc'' then Code 22
      else if l = ''badcookie'' then Code 23
      else (case Atoi rcode of None \<Rightarrow> Fail | Some rc \<Rightarrow> Code rc))"

text \<open>
  The loop over the tokens, threading the map. It returns the error, if any, with the
  map as it stands at that moment: the map is a field of \<open>options\<close> and is written in
  place.
\<close>

fun rcodes_loop :: "'c world \<Rightarrow> string list \<Rightarrow> int set \<Rightarrow> string option \<times> int set" where
  "rcodes_loop w [] m = (None, m)"
| "rcodes_loop w (rcode # rest) m =
     (case rcode_switch w rcode of
        Continue \<Rightarrow> rcodes_loop w rest m
      | Code rc \<Rightarrow> rcodes_loop w rest (insert rc m)
      | Fail \<Rightarrow> (Some ''invalid rcode value'', m))"

definition configureRcodes :: "'c world \<Rightarrow> 'c Options \<Rightarrow> string option \<times> 'c Options" where
  "configureRcodes w options =
     (case rcodes_loop w (Split (RCode options) CHR '','') {} of
        (Some err, m) \<Rightarrow> (Some err, options\<lparr>rcodes := m\<rparr>)
      | (None, m) \<Rightarrow>
          (None, options\<lparr>rcodes := (if m = {} then {0} else m),
                          hasRCodes := (RCode options \<noteq> '''')\<rparr>))"

section \<open>Validation\<close>

text \<open>
  \<open>gologger.Fatal()\<close> logs its message and ends the process, so each check of
  \<open>validateOptions\<close> is a way out with the message; \<open>None\<close> is the plain return.
\<close>

definition argumentHasStdin :: "'c world \<Rightarrow> string \<Rightarrow> bool" where
  "argumentHasStdin w arg = (arg = stdinMarker w)"

definition validateOptions :: "'c world \<Rightarrow> 'c Options \<Rightarrow> string option" where
  "validateOptions w options =
     (if Response options \<and> ResponseOnly options
      then Some ''resp and resp-only can't be used at the same time''
      else
        let wordListPresent = (WordList options \<noteq> '''');
            domainsPresent = (Domains options \<noteq> '''');
            hostsPresent = (Hosts options \<noteq> '''')
        in if hostsPresent \<and> (wordListPresent \<or> domainsPresent)
           then Some ''list(l) flag can not be used domain(d) or wordlist(w) flag''
           else if wordListPresent \<and> \<not> domainsPresent
           then Some ''missing domain(d) flag required with wordlist(w) input''
           else if domainsPresent \<and> \<not> wordListPresent
           then Some ''missing wordlist(w) flag required with domain(d) input''
           else if argumentHasStdin w (Domains options) \<and> argumentHasStdin w (WordList options)
           then Some ''stdin can be set for one flag''
           else None)"

section \<open>ParseOptions\<close>

text \<open>
  What the process does is a trace of logger events and the way it ends: an exit code,
  or the options returned to the caller. Flag registration and parsing belong to
  goflags; \<open>ParseOptions\<close> is modelled from the parsed \<open>options\<close> on.
\<close>

datatype Level = LevelFatal | LevelSilent | LevelInfo | LevelVerbose

datatype event = SetMaxLevel Level | Log Level string | Banner

datatype 'a outcome = Exit int | Returns 'a

definition configureOutput :: "'c Options \<Rightarrow> event list" where
  "configureOutput options =
     (if Verbose options then [SetMaxLevel LevelVerbose] else []) @
     (if Silent options then [SetMaxLevel LevelSilent] else [])"

definition newline :: string where
  "newline = [CHR 0x0A]"

definition ParseOptions :: "'c world \<Rightarrow> 'c Options \<Rightarrow> event list \<times> 'c Options outcome" where
  "ParseOptions w options =
     (let out = configureOutput options in
      case configureRcodes w options of
        (Some err, options) \<Rightarrow> (out @ [Log LevelFatal (err @ newline)], Exit 1)
      | (None, options) \<Rightarrow>
          (case configureResume w options of
             (Some err, options) \<Rightarrow> (out @ [Log LevelFatal (err @ newline)], Exit 1)
           | (None, options) \<Rightarrow>
               if Version options
               then (out @ [Banner,
                       Log LevelInfo (''Current Version: '' @ Version_const w @ newline)],
                     Exit 0)
               else (case validateOptions w options of
                       Some msg \<Rightarrow> (out @ [Banner, Log LevelFatal msg], Exit 1)
                     | None \<Rightarrow> (out @ [Banner], Returns options))))"

section \<open>Sample inputs\<close>

definition sampleWorld :: "unit world" where
  "sampleWorld = \<lparr>unicodeLower = (\<lambda>s. s), FileExists = (\<lambda>f. False),
     Load = (\<lambda>cfg f. (None, cfg)), zeroResumeCfg = (), stdinMarker = ''-'',
     Version_const = ''dev''\<rparr>"

definition sampleOptions :: "unit Options" where
  "sampleOptions = \<lparr>Hosts = '''', Domains = '''', WordList = '''', Silent = False,
     Verbose = False, Version = False, Response = False, ResponseOnly = False,
     rcodes = {}, RCode = '''', hasRCodes = False, Resume = False, resumeCfg = None\<rparr>"

section \<open>The specification's tables\<close>

text \<open>
  The symbolic table as the specification lists it, name by name, to be compared with
  the switch of \<open>configureRcodes\<close>.
\<close>

definition spec_rcode_table :: "(string \<times> int) list" where
  "spec_rcode_table =
     [(''noerror'', 0), (''formerr'', 1), (''servfail'', 2), (''nxdomain'', 3),
      (''notimp'', 4), (''refused'', 5), (''yxdomain'', 6), (''yxrrset'', 7),
      (''nxrrset'', 8), (''notauth'', 9), (''notzone'', 10), (''badsig'', 16),
      (''badvers'', 16), (''badkey'', 17), (''badtime'', 18), (''badmode'', 19),
      (''badname'', 20), (''badalg'', 21), (''badtrunc'', 22), (''badcookie'', 23)]"

text \<open>
  The five rules of the specification's input-mode validator, in its order, each with
  the message the source reports for it, and the first rule of a list that an input
  violates.
\<close>

definition spec_rules :: "'c world \<Rightarrow> (('c Options \<Rightarrow> bool) \<times> string) list" where
  "spec_rules w =
     [(\<lambda>options. Response options \<and> ResponseOnly options,
         ''resp and resp-only can't be used at the same time''),
      (\<lambda>options. Hosts options \<noteq> '''' \<and> (WordList options \<noteq> '''' \<or> Domains options \<noteq> ''''),
         ''list(l) flag can not be used domain(d) or wordlist(w) flag''),
      (\<lambda>options. WordList options \<noteq> '''' \<and> \<not> Domains options \<noteq> '''',
         ''missing domain(d) flag required with wordlist(w) input''),
      (\<lambda>options. Domains options \<noteq> '''' \<and> \<not> WordList options \<noteq> '''',
         ''missing wordlist(w) flag required with domain(d) input''),
      (\<lambda>options. Domains options = stdinMarker w \<and> WordList options = stdinMarker w,
         ''stdin can be set for one flag'')]"

definition first_violation :: "(('o \<Rightarrow> bool) \<times> string) list \<Rightarrow> 'o \<Rightarrow> string option" where
  "first_violation rules options = map_option snd (find (\<lambda>r. fst r options) rules)"

text \<open>The codes that the switch stores for a list of tokens.\<close>

definition codes_of :: "'c world \<Rightarrow> string list \<Rightarrow> int set" where
  "codes_of w ts = {rc. \<exists>t \<in> set ts. rcode_switch w t = Code rc}"

text \<open>A world whose checkpoint file exists and does not load.\<close>

definition malformedWorld :: "unit world" where
  "malformedWorld = sampleWorld\<lparr>FileExists := (\<lambda>f. f = ''resume.cfg''),
     Load := (\<lambda>cfg f. (Some ''malformed resume file'', cfg))\<rparr>"

section \<open>Auxiliary facts\<close>

lemma genSplit_nonempty: "genSplit s sep cur \<noteq> []"
  by (induction s arbitrary: cur) auto

lemma Split_nonempty: "Split s sep \<noteq> []"
  by (simp add: Split_def genSplit_nonempty)

lemma genSplit_prefix:
  "sep \<notin> set a \<Longrightarrow> genSplit (a @ sep # r) sep cur = (cur @ a) # genSplit r sep []"
  by (induction a arbitrary: cur) auto

lemma Split_prefix: "sep \<notin> set a \<Longrightarrow> Split (a @ sep # r) sep = a # Split r sep"
  by (simp add: Split_def genSplit_prefix)

lemma genSplit_no_sep: "sep \<notin> set a \<Longrightarrow> genSplit a sep cur = [cur @ a]"
  by (induction a arbitrary: cur) auto

lemma Split_no_sep: "sep \<notin> set a \<Longrightarrow> Split a sep = [a]"
  by (simp add: Split_def genSplit_no_sep)

lemma Split_Nil: "Split [] sep = [[]]"
  by (simp add: Split_def)

lemma switch_table:
  "(name, code) \<in> set spec_rcode_table \<Longrightarrow> ToLower (unicodeLower w) t = name \<Longrightarrow>
   rcode_switch w t = Code code"
  by (auto simp: spec_rcode_table_def rcode_switch_def)

lemma switch_Fail:
  "(rcode_switch w t = Fail) =
   (ToLower (unicodeLower w) t \<noteq> [] \<and> ToLower (unicodeLower w) t \<notin> fst ` set spec_rcode_table
    \<and> Atoi t = None)"
  by (simp add: rcode_switch_def Let_def spec_rcode_table_def split: option.splits)

lemma switch_Code:
  "(rcode_switch w t = Code rc) =
   ((ToLower (unicodeLower w) t, rc) \<in> set spec_rcode_table \<or>
    (ToLower (unicodeLower w) t \<noteq> [] \<and> ToLower (unicodeLower w) t \<notin> fst ` set spec_rcode_table
    \<and> Atoi t = Some rc))"
  by (auto simp add: rcode_switch_def Let_def spec_rcode_table_def split: option.splits)

lemma rcodes_loop_char:
  "rcodes_loop w ts m =
     ((if \<exists>t \<in> set ts. rcode_switch w t = Fail then Some ''invalid rcode value'' else None),
      m \<union> codes_of w (takeWhile (\<lambda>t. rcode_switch w t \<noteq> Fail) ts))"
proof (induction ts arbitrary: m)
  case Nil
  then show ?case by (simp add: codes_of_def)
next
  case (Cons t ts)
  show ?case
  proof (cases "rcode_switch w t")
    case Continue
    then show ?thesis using Cons[of m] by (auto simp: codes_of_def)
  next
    case (Code rc)
    then show ?thesis using Cons[of "insert rc m"] by (auto simp: codes_of_def)
  next
    case Fail
    then show ?thesis by (simp add: codes_of_def)
  qed
qed

lemma configureRcodes_ok:
  assumes "\<forall>t \<in> set (Split (RCode options) CHR '',''). rcode_switch w t \<noteq> Fail"
  shows "configureRcodes w options =
     (None, options\<lparr>rcodes := (if codes_of w (Split (RCode options) CHR '','') = {} then {0}
                                 else codes_of w (Split (RCode options) CHR '','')),
                    hasRCodes := (RCode options \<noteq> '''')\<rparr>)"
proof -
  have tw: "takeWhile (\<lambda>t. rcode_switch w t \<noteq> Fail) (Split (RCode options) CHR '','')
              = Split (RCode options) CHR '',''"
    using assms by (simp add: takeWhile_eq_all_conv)
  have "rcodes_loop w (Split (RCode options) CHR '','') {} =
          (None, codes_of w (Split (RCode options) CHR '',''))"
    using assms by (simp add: rcodes_loop_char tw)
  then show ?thesis by (simp add: configureRcodes_def)
qed

lemma configureRcodes_fail:
  assumes "\<exists>t \<in> set (Split (RCode options) CHR '',''). rcode_switch w t = Fail"
  shows "configureRcodes w options =
     (Some ''invalid rcode value'',
      options\<lparr>rcodes := codes_of w (takeWhile (\<lambda>t. rcode_switch w t \<noteq> Fail)
                                       (Split (RCode options) CHR '',''))\<rparr>)"
proof -
  have "rcodes_loop w (Split (RCode options) CHR '','') {} =
          (Some ''invalid rcode value'',
           codes_of w (takeWhile (\<lambda>t. rcode_switch w t \<noteq> Fail) (Split (RCode options) CHR '','')))"
    using assms by (simp add: rcodes_loop_char)
  then show ?thesis by (simp add: configureRcodes_def)
qed

lemma configureRcodes_success_iff:
  "(fst (configureRcodes w options) = None) =
   (\<forall>t \<in> set (Split (RCode options) CHR '',''). rcode_switch w t \<noteq> Fail)"
proof (cases "\<exists>t \<in> set (Split (RCode options) CHR '',''). rcode_switch w t = Fail")
  case True
  then show ?thesis using configureRcodes_fail[OF True] by auto
next
  case False
  then have "\<forall>t \<in> set (Split (RCode options) CHR '',''). rcode_switch w t \<noteq> Fail" by blast
  then show ?thesis using configureRcodes_ok[of options w] by simp
qed

lemma decimal_nonneg_aux:
  "list_all isDigit ds \<Longrightarrow> 0 \<le> n \<Longrightarrow>
   0 \<le> foldl (\<lambda>n ch. n * 10 + (int (of_char ch) - 48)) n ds"
proof (induction ds arbitrary: n)
  case Nil then show ?case by simp
next
  case (Cons d ds)
  have "0 \<le> n * 10 + (int (of_char d) - 48)"
    using Cons.prems by (simp add: isDigit_def)
  then show ?case using Cons by simp
qed

lemma decimal_nonneg: "list_all isDigit ds \<Longrightarrow> 0 \<le> decimal ds"
  unfolding decimal_def by (rule decimal_nonneg_aux) simp_all

lemma Atoi_nonneg:
  assumes "Atoi t = Some n" and "t = [] \<or> hd t \<noteq> CHR ''-''"
  shows "0 \<le> n"
  using assms
  by (auto simp: Atoi_def Let_def decimal_nonneg split: if_splits)

lemma table_nonneg: "(name, code) \<in> set spec_rcode_table \<Longrightarrow> 0 \<le> code"
  by (auto simp: spec_rcode_table_def)

lemma switch_nonneg:
  assumes "rcode_switch w t = Code rc" and "t = [] \<or> hd t \<noteq> CHR ''-''"
  shows "0 \<le> rc"
  using assms by (auto simp: switch_Code dest: table_nonneg Atoi_nonneg)

lemmas eval_simps = configureRcodes_def Split_def rcode_switch_def ToLower_def isASCII_def
  lowerByte_def char_of_eq_iff Atoi_def isDigit_def decimal_def minInt_def maxInt_def

lemma ToLower_Nil: "ToLower uni [] = []"
  by (simp add: ToLower_def isASCII_def)

lemma codes_of_set: "set ts = set us \<Longrightarrow> codes_of w ts = codes_of w us"
  by (simp add: codes_of_def)

lemma ParseOptions_rcode_error:
  "fst (configureRcodes w options) = Some err \<Longrightarrow>
   ParseOptions w options = (configureOutput options @ [Log LevelFatal (err @ newline)], Exit 1)"
  by (cases "configureRcodes w options") (simp add: ParseOptions_def)

lemma sw_refused: "rcode_switch sampleWorld ''refused'' = Code 5"
  by (simp add: eval_simps)

lemma sw_bogus: "rcode_switch sampleWorld ''bogus'' = Fail"
  by (simp add: eval_simps)



section \<open>Response-code resolution\<close>

text \<open>
  C1: a token whose lower-cased form is a name of the symbolic table is resolved by the
  switch to the code listed for that name, and when \<open>configureRcodes\<close> succeeds that
  code is in the resulting set. The input \<open>noerror,nxdomain\<close> gives the set {0, 3};
  \<open>badsig\<close> and \<open>badvers\<close> both stand for 16, so \<open>badsig,badvers\<close> gives {16}.
\<close>

theorem rcode_table_resolution:
  "((name, code) \<in> set spec_rcode_table \<and> ToLower (unicodeLower w) t = name
      \<longrightarrow> rcode_switch w t = Code code)
   \<and> ((name, code) \<in> set spec_rcode_table \<and> ToLower (unicodeLower w) t = name
        \<and> t \<in> set (Split (RCode options) CHR '','')
        \<and> configureRcodes w options = (None, options')
      \<longrightarrow> code \<in> rcodes options')
   \<and> configureRcodes w (options\<lparr>RCode := ''noerror,nxdomain''\<rparr>) =
       (None, options\<lparr>RCode := ''noerror,nxdomain'', rcodes := {0, 3}, hasRCodes := True\<rparr>)
   \<and> configureRcodes w (options\<lparr>RCode := ''badsig,badvers''\<rparr>) =
       (None, options\<lparr>RCode := ''badsig,badvers'', rcodes := {16}, hasRCodes := True\<rparr>)"
proof (intro conjI impI)
  assume "(name, code) \<in> set spec_rcode_table \<and> ToLower (unicodeLower w) t = name"
  then show "rcode_switch w t = Code code" by (blast intro: switch_table)
next
  assume a: "(name, code) \<in> set spec_rcode_table \<and> ToLower (unicodeLower w) t = name
        \<and> t \<in> set (Split (RCode options) CHR '','')
        \<and> configureRcodes w options = (None, options')"
  then have sw: "rcode_switch w t = Code code" by (blast intro: switch_table)
  from a have "fst (configureRcodes w options) = None" by simp
  then have ok: "\<forall>t \<in> set (Split (RCode options) CHR '',''). rcode_switch w t \<noteq> Fail"
    by (simp add: configureRcodes_success_iff)
  have mem: "code \<in> codes_of w (Split (RCode options) CHR '','')"
    using a sw by (auto simp: codes_of_def)
  then have "codes_of w (Split (RCode options) CHR '','') \<noteq> {}" by blast
  then have "rcodes (snd (configureRcodes w options)) = codes_of w (Split (RCode options) CHR '','')"
    by (simp add: configureRcodes_ok[OF ok])
  then show "code \<in> rcodes options'" using a mem by simp
next
  show "configureRcodes w (options\<lparr>RCode := ''noerror,nxdomain''\<rparr>) =
       (None, options\<lparr>RCode := ''noerror,nxdomain'', rcodes := {0, 3}, hasRCodes := True\<rparr>)"
    by (simp add: eval_simps insert_commute)
next
  show "configureRcodes w (options\<lparr>RCode := ''badsig,badvers''\<rparr>) =
       (None, options\<lparr>RCode := ''badsig,badvers'', rcodes := {16}, hasRCodes := True\<rparr>)"
    by (simp add: eval_simps)
qed

theorem rcode_table_resolution_witness:
  "rcode_switch sampleWorld ''NXDomain'' = Code 3
   \<and> 3 \<in> rcodes (snd (configureRcodes sampleWorld (sampleOptions\<lparr>RCode := ''refused,NXDomain''\<rparr>)))
   \<and> rcodes (snd (configureRcodes sampleWorld (sampleOptions\<lparr>RCode := ''badsig,badvers''\<rparr>))) = {16}"
proof -
  have t: "(''nxdomain'', 3) \<in> set spec_rcode_table" by (simp add: spec_rcode_table_def)
  have l: "ToLower (unicodeLower sampleWorld) ''NXDomain'' = ''nxdomain''"
    by (simp add: eval_simps)
  have s: "''NXDomain'' \<in> set (Split (RCode (sampleOptions\<lparr>RCode := ''refused,NXDomain''\<rparr>)) CHR '','')"
    by (simp add: Split_def)
  have c: "configureRcodes sampleWorld (sampleOptions\<lparr>RCode := ''refused,NXDomain''\<rparr>)
             = (None, snd (configureRcodes sampleWorld (sampleOptions\<lparr>RCode := ''refused,NXDomain''\<rparr>)))"
    by (simp add: eval_simps)
  show ?thesis
    using rcode_table_resolution[of "''nxdomain''" 3 sampleWorld "''NXDomain''"
        "sampleOptions\<lparr>RCode := ''refused,NXDomain''\<rparr>"
        "snd (configureRcodes sampleWorld (sampleOptions\<lparr>RCode := ''refused,NXDomain''\<rparr>))"]
      t l s c
      rcode_table_resolution[of "''nxdomain''" 3 sampleWorld "''NXDomain''" sampleOptions sampleOptions]
    by simp
qed

text \<open>
  Tokens are lower-cased but not trimmed: with a blank after the comma the second token
  of \<open>noerror, nxdomain\<close> is not a table name, and the call fails.
\<close>

theorem configureRcodes_trims_counterexample:
  "fst (configureRcodes sampleWorld (sampleOptions\<lparr>RCode := ''noerror, nxdomain''\<rparr>))
     = Some ''invalid rcode value''"
  by (simp add: eval_simps)

text \<open>
  C2, amended: when the lower-cased form of every token of the comma-separated input is
  a name of the symbolic table (any letter case, no surrounding whitespace),
  \<open>configureRcodes\<close> succeeds, the resulting set is the union of the codes listed for
  the tokens, and \<open>hasRCodes\<close> is set.
\<close>

theorem configureRcodes_symbolic:
  assumes "\<forall>t \<in> set (Split (RCode options) CHR '','').
             ToLower (unicodeLower w) t \<in> fst ` set spec_rcode_table"
  shows "configureRcodes w options =
     (None, options\<lparr>rcodes := {code. \<exists>t \<in> set (Split (RCode options) CHR '','').
                                   (ToLower (unicodeLower w) t, code) \<in> set spec_rcode_table},
                    hasRCodes := True\<rparr>)"
proof -
  let ?ts = "Split (RCode options) CHR '',''"
  have nonempty: "[] \<notin> fst ` set spec_rcode_table" by (simp add: spec_rcode_table_def)
  have ok: "\<forall>t \<in> set ?ts. rcode_switch w t \<noteq> Fail"
    using assms by (simp add: switch_Fail)
  have codes: "codes_of w ?ts = {code. \<exists>t \<in> set ?ts.
                 (ToLower (unicodeLower w) t, code) \<in> set spec_rcode_table}"
    using assms by (auto simp: codes_of_def switch_Code)
  obtain t where t: "t \<in> set ?ts" using Split_nonempty[of "RCode options" "CHR '',''"]
    by (cases ?ts) auto
  then have "ToLower (unicodeLower w) t \<in> fst ` set spec_rcode_table" using assms by blast
  then obtain code where "(ToLower (unicodeLower w) t, code) \<in> set spec_rcode_table" by auto
  then have "rcode_switch w t = Code code" by (blast intro: switch_table)
  then have ne: "codes_of w ?ts \<noteq> {}" using t by (auto simp: codes_of_def)
  have "RCode options \<noteq> []"
  proof
    assume "RCode options = []"
    then have "[] \<in> set ?ts" by (simp add: Split_Nil)
    then have "ToLower (unicodeLower w) [] \<in> fst ` set spec_rcode_table" using assms by blast
    then show False using nonempty by (simp add: ToLower_Nil)
  qed
  then show ?thesis using configureRcodes_ok[OF ok] ne codes by simp
qed

theorem configureRcodes_symbolic_witness:
  "configureRcodes sampleWorld (sampleOptions\<lparr>RCode := ''NoError,REFUSED,noerror''\<rparr>) =
     (None, sampleOptions\<lparr>RCode := ''NoError,REFUSED,noerror'', rcodes := {0, 5},
                          hasRCodes := True\<rparr>)"
proof -
  have h: "\<forall>t \<in> set (Split (RCode (sampleOptions\<lparr>RCode := ''NoError,REFUSED,noerror''\<rparr>)) CHR '','').
             ToLower (unicodeLower sampleWorld) t \<in> fst ` set spec_rcode_table"
    by (simp add: eval_simps spec_rcode_table_def)
  have "{code. \<exists>t \<in> set (Split (RCode (sampleOptions\<lparr>RCode := ''NoError,REFUSED,noerror''\<rparr>)) CHR '','').
           (ToLower (unicodeLower sampleWorld) t, code) \<in> set spec_rcode_table} = {0, 5}"
    by (auto simp: eval_simps spec_rcode_table_def)
  then show ?thesis using configureRcodes_symbolic[OF h] by simp
qed

text \<open>
  The error return does not undo the writes to the map: after \<open>noerror,bogus\<close> the call
  has failed and the rcode set of the options, empty before, holds the code 0 of the
  token before the bad one.
\<close>

theorem configureRcodes_partial_counterexample:
  "configureRcodes sampleWorld (sampleOptions\<lparr>RCode := ''noerror,bogus''\<rparr>) =
     (Some ''invalid rcode value'', sampleOptions\<lparr>RCode := ''noerror,bogus'', rcodes := {0}\<rparr>)
   \<and> rcodes (sampleOptions\<lparr>RCode := ''noerror,bogus''\<rparr>) = {}"
  by (simp add: eval_simps sampleOptions_def)

text \<open>
  C3, amended: when some token of the input has a non-empty lower-cased form that is not
  a table name, and \<open>strconv.Atoi\<close> rejects the token, \<open>configureRcodes\<close> returns the
  invalid-rcode error; the options then differ from the input only in the rcode set,
  which holds the codes of the tokens before the first bad one; and \<open>ParseOptions\<close>
  logs the error as fatal and exits with code 1, returning no options.
\<close>

theorem configureRcodes_invalid:
  assumes "t \<in> set (Split (RCode options) CHR '','')"
    and "ToLower (unicodeLower w) t \<noteq> ''''"
    and "ToLower (unicodeLower w) t \<notin> fst ` set spec_rcode_table"
    and "Atoi t = None"
  shows "configureRcodes w options =
           (Some ''invalid rcode value'',
            options\<lparr>rcodes := {rc. \<exists>u \<in> set (takeWhile (\<lambda>u. rcode_switch w u \<noteq> Fail)
                                                   (Split (RCode options) CHR '','')).
                                    rcode_switch w u = Code rc}\<rparr>)
         \<and> ParseOptions w options =
             (configureOutput options @ [Log LevelFatal (''invalid rcode value'' @ newline)], Exit 1)"
proof -
  have "rcode_switch w t = Fail" using assms by (simp add: switch_Fail)
  then have ex: "\<exists>t \<in> set (Split (RCode options) CHR '',''). rcode_switch w t = Fail"
    using assms(1) by blast
  have c: "configureRcodes w options =
           (Some ''invalid rcode value'',
            options\<lparr>rcodes := {rc. \<exists>u \<in> set (takeWhile (\<lambda>u. rcode_switch w u \<noteq> Fail)
                                                   (Split (RCode options) CHR '','')).
                                    rcode_switch w u = Code rc}\<rparr>)"
    using configureRcodes_fail[OF ex] by (simp add: codes_of_def)
  then have "fst (configureRcodes w options) = Some ''invalid rcode value''" by simp
  then show ?thesis using c ParseOptions_rcode_error by blast
qed

theorem configureRcodes_invalid_witness:
  "configureRcodes sampleWorld (sampleOptions\<lparr>RCode := ''refused,bogus,noerror''\<rparr>) =
     (Some ''invalid rcode value'',
      sampleOptions\<lparr>RCode := ''refused,bogus,noerror'', rcodes := {5}\<rparr>)
   \<and> snd (ParseOptions sampleWorld (sampleOptions\<lparr>RCode := ''refused,bogus,noerror''\<rparr>)) = Exit 1"
proof -
  let ?o = "sampleOptions\<lparr>RCode := ''refused,bogus,noerror''\<rparr>"
  have s: "Split ''refused,bogus,noerror'' CHR '','' = [''refused'', ''bogus'', ''noerror'']"
    by (simp add: Split_def)
  have h1: "''bogus'' \<in> set (Split (RCode ?o) CHR '','')" by (simp add: s)
  have l: "ToLower (unicodeLower sampleWorld) ''bogus'' = ''bogus''" by (simp add: eval_simps)
  have h2: "ToLower (unicodeLower sampleWorld) ''bogus'' \<noteq> ''''" by (simp add: l)
  have h3: "ToLower (unicodeLower sampleWorld) ''bogus'' \<notin> fst ` set spec_rcode_table"
    by (simp add: l spec_rcode_table_def)
  have h4: "Atoi ''bogus'' = None" by (simp add: Atoi_def isDigit_def)
  have "{rc. \<exists>u \<in> set (takeWhile (\<lambda>u. rcode_switch sampleWorld u \<noteq> Fail) (Split (RCode ?o) CHR '','')).
             rcode_switch sampleWorld u = Code rc} = {5}"
    by (simp add: s sw_refused sw_bogus)
  then show ?thesis using configureRcodes_invalid[OF h1 h2 h3 h4] by simp
qed

text \<open>
  \<open>strconv.Atoi\<close> accepts a sign, and nothing checks the value: the input \<open>-1\<close> is
  accepted and the resulting set holds a negative code.
\<close>

theorem configureRcodes_negative_counterexample:
  "configureRcodes sampleWorld (sampleOptions\<lparr>RCode := ''-1''\<rparr>) =
     (None, sampleOptions\<lparr>RCode := ''-1'', rcodes := {-1}, hasRCodes := True\<rparr>)"
  by (simp add: eval_simps)

text \<open>
  C4, amended: when \<open>configureRcodes\<close> succeeds the resulting set is not empty; it is
  exactly {0} when no token resolved to a code; and all its members are non-negative
  when no token starts with a minus sign.
\<close>

theorem configureRcodes_nonempty:
  assumes "configureRcodes w options = (None, options')"
  shows "rcodes options' \<noteq> {}
     \<and> ((\<forall>t \<in> set (Split (RCode options) CHR '',''). \<forall>rc. rcode_switch w t \<noteq> Code rc)
          \<longrightarrow> rcodes options' = {0})
     \<and> ((\<forall>t \<in> set (Split (RCode options) CHR '',''). t = '''' \<or> hd t \<noteq> CHR ''-'')
          \<longrightarrow> (\<forall>rc \<in> rcodes options'. 0 \<le> rc))"
proof -
  let ?ts = "Split (RCode options) CHR '',''"
  from assms have "fst (configureRcodes w options) = None" by simp
  then have ok: "\<forall>t \<in> set ?ts. rcode_switch w t \<noteq> Fail"
    by (simp add: configureRcodes_success_iff)
  have r: "rcodes options' = (if codes_of w ?ts = {} then {0} else codes_of w ?ts)"
    using configureRcodes_ok[OF ok] assms by auto
  have 1: "rcodes options' \<noteq> {}" using r by auto
  have 2: "(\<forall>t \<in> set ?ts. \<forall>rc. rcode_switch w t \<noteq> Code rc) \<longrightarrow> rcodes options' = {0}"
  proof
    assume "\<forall>t \<in> set ?ts. \<forall>rc. rcode_switch w t \<noteq> Code rc"
    then have "codes_of w ?ts = {}" by (auto simp: codes_of_def)
    then show "rcodes options' = {0}" using r by simp
  qed
  have 3: "(\<forall>t \<in> set ?ts. t = '''' \<or> hd t \<noteq> CHR ''-'') \<longrightarrow> (\<forall>rc \<in> rcodes options'. 0 \<le> rc)"
  proof (intro impI ballI)
    fix rc
    assume a: "\<forall>t \<in> set ?ts. t = '''' \<or> hd t \<noteq> CHR ''-''" and m: "rc \<in> rcodes options'"
    show "0 \<le> rc"
    proof (cases "codes_of w ?ts = {}")
      case True
      then show ?thesis using r m by simp
    next
      case False
      then have "rc \<in> codes_of w ?ts" using r m by simp
      then obtain t where "t \<in> set ?ts" "rcode_switch w t = Code rc"
        by (auto simp: codes_of_def)
      then show ?thesis using a switch_nonneg by blast
    qed
  qed
  show ?thesis using 1 2 3 by blast
qed

theorem configureRcodes_nonempty_witness:
  "rcodes (snd (configureRcodes sampleWorld (sampleOptions\<lparr>RCode := '',,''\<rparr>))) = {0}
   \<and> rcodes (snd (configureRcodes sampleWorld (sampleOptions\<lparr>RCode := '',,''\<rparr>))) \<noteq> {}
   \<and> \<not> (\<exists>rc \<in> rcodes (snd (configureRcodes sampleWorld (sampleOptions\<lparr>RCode := ''+3,refused''\<rparr>))).
          rc < 0)"
proof -
  let ?o = "sampleOptions\<lparr>RCode := '',,''\<rparr>"
  let ?p = "sampleOptions\<lparr>RCode := ''+3,refused''\<rparr>"
  have s: "Split '',,'' CHR '','' = ['''', '''', '''']" by (simp add: Split_def)
  have c: "configureRcodes sampleWorld ?o = (None, snd (configureRcodes sampleWorld ?o))"
    by (simp add: eval_simps)
  have sw: "rcode_switch sampleWorld '''' = Continue" by (simp add: eval_simps)
  have "\<forall>t \<in> set (Split '',,'' CHR '',''). \<forall>rc. rcode_switch sampleWorld t \<noteq> Code rc"
    unfolding s by (simp add: sw)
  then have h: "\<forall>t \<in> set (Split (RCode ?o) CHR '',''). \<forall>rc. rcode_switch sampleWorld t \<noteq> Code rc"
    by simp
  have cp: "configureRcodes sampleWorld ?p = (None, snd (configureRcodes sampleWorld ?p))"
    by (simp add: eval_simps)
  have hp: "\<forall>t \<in> set (Split (RCode ?p) CHR '',''). t = '''' \<or> hd t \<noteq> CHR ''-''"
    by (simp add: Split_def)
  have "\<forall>rc \<in> rcodes (snd (configureRcodes sampleWorld ?p)). 0 \<le> rc"
    using configureRcodes_nonempty[OF cp] hp by blast
  then have "\<not> (\<exists>rc \<in> rcodes (snd (configureRcodes sampleWorld ?p)). rc < 0)"
    by auto
  then show ?thesis using configureRcodes_nonempty[OF c] h by blast
qed

text \<open>
  C5: after a successful \<open>configureRcodes\<close>, \<open>hasRCodes\<close> is true exactly when the
  input string is not empty. The input \<open>,\<close> resolves no token, so the set is the
  default {0}, and \<open>hasRCodes\<close> is true; the empty input gives {0} and false.
\<close>

theorem hasRCodes_iff_nonempty:
  "(configureRcodes w options = (None, options') \<longrightarrow> hasRCodes options' = (RCode options \<noteq> ''''))
   \<and> configureRcodes w (options\<lparr>RCode := '',''\<rparr>) =
       (None, options\<lparr>RCode := '','', rcodes := {0}, hasRCodes := True\<rparr>)
   \<and> configureRcodes w (options\<lparr>RCode := ''''\<rparr>) =
       (None, options\<lparr>RCode := '''', rcodes := {0}, hasRCodes := False\<rparr>)"
proof (intro conjI impI)
  assume "configureRcodes w options = (None, options')"
  then show "hasRCodes options' = (RCode options \<noteq> '''')"
    by (auto simp: configureRcodes_def split: prod.splits option.splits)
next
  show "configureRcodes w (options\<lparr>RCode := '',''\<rparr>) =
       (None, options\<lparr>RCode := '','', rcodes := {0}, hasRCodes := True\<rparr>)"
    by (simp add: eval_simps)
next
  show "configureRcodes w (options\<lparr>RCode := ''''\<rparr>) =
       (None, options\<lparr>RCode := '''', rcodes := {0}, hasRCodes := False\<rparr>)"
    by (simp add: eval_simps)
qed

theorem hasRCodes_iff_nonempty_witness:
  "hasRCodes (snd (configureRcodes sampleWorld (sampleOptions\<lparr>RCode := ''23''\<rparr>))) = True
   \<and> hasRCodes (snd (configureRcodes sampleWorld (sampleOptions\<lparr>RCode := ''''\<rparr>))) = False"
proof -
  let ?o = "sampleOptions\<lparr>RCode := ''23''\<rparr>"
  have c: "configureRcodes sampleWorld ?o = (None, snd (configureRcodes sampleWorld ?o))"
    by (simp add: eval_simps)
  show ?thesis
    using hasRCodes_iff_nonempty[of sampleWorld ?o "snd (configureRcodes sampleWorld ?o)"] c
      hasRCodes_iff_nonempty[of sampleWorld sampleOptions sampleOptions]
    by simp
qed

text \<open>
  C10: the resulting set depends only on the set of tokens. When two inputs have the
  same set of tokens and \<open>configureRcodes\<close> succeeds on one, it succeeds on the other
  with the same rcode set; so for comma-free \<open>x\<close>, \<open>a\<close> and \<open>b\<close>, the inputs \<open>x,x\<close>
  and \<open>x\<close> give the same set, and so do \<open>a,b\<close> and \<open>b,a\<close>.
\<close>

theorem rcodes_depend_on_token_set:
  "(set (Split (RCode o1) CHR '','') = set (Split (RCode o2) CHR '','')
      \<and> configureRcodes w o1 = (None, o1')
     \<longrightarrow> fst (configureRcodes w o2) = None
         \<and> rcodes (snd (configureRcodes w o2)) = rcodes o1')
   \<and> (CHR '','' \<notin> set x \<and> fst (configureRcodes w (o1\<lparr>RCode := x\<rparr>)) = None
     \<longrightarrow> fst (configureRcodes w (o1\<lparr>RCode := x @ '','' @ x\<rparr>)) = None
         \<and> rcodes (snd (configureRcodes w (o1\<lparr>RCode := x @ '','' @ x\<rparr>)))
             = rcodes (snd (configureRcodes w (o1\<lparr>RCode := x\<rparr>))))
   \<and> (CHR '','' \<notin> set a \<and> CHR '','' \<notin> set b
        \<and> fst (configureRcodes w (o1\<lparr>RCode := a @ '','' @ b\<rparr>)) = None
     \<longrightarrow> fst (configureRcodes w (o1\<lparr>RCode := b @ '','' @ a\<rparr>)) = None
         \<and> rcodes (snd (configureRcodes w (o1\<lparr>RCode := b @ '','' @ a\<rparr>)))
             = rcodes (snd (configureRcodes w (o1\<lparr>RCode := a @ '','' @ b\<rparr>))))"
proof -
  have main: "fst (configureRcodes w p) = None \<and> rcodes (snd (configureRcodes w p)) = rcodes (snd (configureRcodes w q))"
    if eq: "set (Split (RCode q) CHR '','') = set (Split (RCode p) CHR '','')"
      and ok: "fst (configureRcodes w q) = None" for p q :: "'a Options"
  proof -
    have okq: "\<forall>t \<in> set (Split (RCode q) CHR '',''). rcode_switch w t \<noteq> Fail"
      using ok by (simp add: configureRcodes_success_iff)
    then have okp: "\<forall>t \<in> set (Split (RCode p) CHR '',''). rcode_switch w t \<noteq> Fail"
      using eq by simp
    have "codes_of w (Split (RCode q) CHR '','') = codes_of w (Split (RCode p) CHR '','')"
      using eq by (rule codes_of_set)
    then show ?thesis
      using configureRcodes_ok[OF okq] configureRcodes_ok[OF okp] by simp
  qed
  have 1: "set (Split (RCode o1) CHR '','') = set (Split (RCode o2) CHR '','')
      \<and> configureRcodes w o1 = (None, o1')
     \<longrightarrow> fst (configureRcodes w o2) = None
         \<and> rcodes (snd (configureRcodes w o2)) = rcodes o1'"
    using main[of o1 o2] by auto
  have 2: "CHR '','' \<notin> set x \<and> fst (configureRcodes w (o1\<lparr>RCode := x\<rparr>)) = None
     \<longrightarrow> fst (configureRcodes w (o1\<lparr>RCode := x @ '','' @ x\<rparr>)) = None
         \<and> rcodes (snd (configureRcodes w (o1\<lparr>RCode := x @ '','' @ x\<rparr>)))
             = rcodes (snd (configureRcodes w (o1\<lparr>RCode := x\<rparr>)))"
    using main[of "o1\<lparr>RCode := x\<rparr>" "o1\<lparr>RCode := x @ '','' @ x\<rparr>"]
    by (simp add: Split_prefix Split_no_sep)
  have 3: "CHR '','' \<notin> set a \<and> CHR '','' \<notin> set b
        \<and> fst (configureRcodes w (o1\<lparr>RCode := a @ '','' @ b\<rparr>)) = None
     \<longrightarrow> fst (configureRcodes w (o1\<lparr>RCode := b @ '','' @ a\<rparr>)) = None
         \<and> rcodes (snd (configureRcodes w (o1\<lparr>RCode := b @ '','' @ a\<rparr>)))
             = rcodes (snd (configureRcodes w (o1\<lparr>RCode := a @ '','' @ b\<rparr>)))"
    using main[of "o1\<lparr>RCode := a @ '','' @ b\<rparr>" "o1\<lparr>RCode := b @ '','' @ a\<rparr>"]
    by (simp add: Split_prefix Split_no_sep insert_commute)
  show ?thesis using 1 2 3 by blast
qed

theorem rcodes_depend_on_token_set_witness:
  "fst (configureRcodes sampleWorld (sampleOptions\<lparr>RCode := ''7,refused,7''\<rparr>)) = None
   \<and> rcodes (snd (configureRcodes sampleWorld (sampleOptions\<lparr>RCode := ''7,refused,7''\<rparr>))) = {5, 7}
   \<and> rcodes (snd (configureRcodes sampleWorld (sampleOptions\<lparr>RCode := ''7,7''\<rparr>))) = {7}
   \<and> rcodes (snd (configureRcodes sampleWorld (sampleOptions\<lparr>RCode := ''7,refused''\<rparr>))) = {5, 7}"
proof -
  let ?p = "sampleOptions\<lparr>RCode := ''refused,7''\<rparr>"
  let ?q = "sampleOptions\<lparr>RCode := ''7,refused,7''\<rparr>"
  have s: "set (Split (RCode ?p) CHR '','') = set (Split (RCode ?q) CHR '','')"
    by (simp add: Split_def insert_commute)
  have c: "configureRcodes sampleWorld ?p =
      (None, sampleOptions\<lparr>RCode := ''refused,7'', rcodes := {5, 7}, hasRCodes := True\<rparr>)"
    by (simp add: eval_simps insert_commute)
  have c7: "configureRcodes sampleWorld (sampleOptions\<lparr>RCode := ''7''\<rparr>) =
      (None, sampleOptions\<lparr>RCode := ''7'', rcodes := {7}, hasRCodes := True\<rparr>)"
    by (simp add: eval_simps)
  have n: "CHR '','' \<notin> set ''7''" "CHR '','' \<notin> set ''refused''" by simp_all
  show ?thesis
    using rcodes_depend_on_token_set[of ?p ?q sampleWorld
        "sampleOptions\<lparr>RCode := ''refused,7'', rcodes := {5, 7}, hasRCodes := True\<rparr>"
        "''7''" "''refused''" "''7''"] s c c7 n
    by simp
qed

section \<open>Validation and start-up order\<close>

text \<open>
  C6: \<open>validateOptions\<close> reports the message of the first of the five rules, in the
  specification's order, that the options violate, and nothing when they violate none;
  the five messages are distinct, so the message identifies the rule.
\<close>

theorem validateOptions_first_violation:
  "validateOptions w options = first_violation (spec_rules w) options
   \<and> (validateOptions w options = None) = (\<forall>r \<in> set (spec_rules w). \<not> fst r options)
   \<and> distinct (map snd (spec_rules w))"
proof (intro conjI)
  show "validateOptions w options = first_violation (spec_rules w) options"
    by (simp add: validateOptions_def first_violation_def spec_rules_def argumentHasStdin_def
        Let_def)
  show "(validateOptions w options = None) = (\<forall>r \<in> set (spec_rules w). \<not> fst r options)"
    by (auto simp: validateOptions_def spec_rules_def argumentHasStdin_def Let_def)
  show "distinct (map snd (spec_rules w))"
    by (simp add: spec_rules_def)
qed

theorem validateOptions_first_violation_witness:
  "validateOptions sampleWorld
     (sampleOptions\<lparr>Response := True, ResponseOnly := True, Hosts := ''hosts.txt'',
                    Domains := ''example.com''\<rparr>)
     = Some ''resp and resp-only can't be used at the same time''
   \<and> validateOptions sampleWorld (sampleOptions\<lparr>Hosts := ''hosts.txt'', WordList := ''-''\<rparr>)
     = Some ''list(l) flag can not be used domain(d) or wordlist(w) flag''
   \<and> validateOptions sampleWorld (sampleOptions\<lparr>Domains := ''-'', WordList := ''-''\<rparr>)
     = Some ''stdin can be set for one flag''
   \<and> validateOptions sampleWorld (sampleOptions\<lparr>Domains := ''example.com'', WordList := ''words.txt''\<rparr>)
     = None"
  using validateOptions_first_violation[of sampleWorld
      "sampleOptions\<lparr>Response := True, ResponseOnly := True, Hosts := ''hosts.txt'',
                    Domains := ''example.com''\<rparr>"]
    validateOptions_first_violation[of sampleWorld "sampleOptions\<lparr>Hosts := ''hosts.txt'', WordList := ''-''\<rparr>"]
    validateOptions_first_violation[of sampleWorld "sampleOptions\<lparr>Domains := ''-'', WordList := ''-''\<rparr>"]
    validateOptions_first_violation[of sampleWorld "sampleOptions\<lparr>Domains := ''example.com'', WordList := ''words.txt''\<rparr>"]
  by (simp add: first_violation_def spec_rules_def sampleOptions_def sampleWorld_def)



section \<open>Resume checkpoint\<close>

text \<open>
  C8: \<open>ShouldLoadResume\<close> is true exactly when the resume flag is set and the file
  \<open>resume.cfg\<close> exists. In that case \<open>configureResume\<close> calls \<open>goconfig.Load\<close> on that
  file and hands its error, if any, to the caller; in every other case it leaves the
  zero checkpoint in place and returns no error.
\<close>

theorem resume_load:
  "ShouldLoadResume w options = (Resume options \<and> FileExists w ''resume.cfg'')
   \<and> (ShouldLoadResume w options \<longrightarrow>
         configureResume w options =
           (fst (Load w (Some (zeroResumeCfg w)) ''resume.cfg''),
            options\<lparr>resumeCfg := snd (Load w (Some (zeroResumeCfg w)) ''resume.cfg'')\<rparr>))
   \<and> (\<not> ShouldLoadResume w options \<longrightarrow>
         configureResume w options = (None, options\<lparr>resumeCfg := Some (zeroResumeCfg w)\<rparr>))"
  by (auto simp: ShouldLoadResume_def configureResume_def DefaultResumeFile_def Let_def
      split: prod.splits)

theorem resume_load_witness:
  "configureResume sampleWorld (sampleOptions\<lparr>Resume := True\<rparr>)
     = (None, sampleOptions\<lparr>Resume := True, resumeCfg := Some ()\<rparr>)
   \<and> configureResume malformedWorld (sampleOptions\<lparr>Resume := True\<rparr>)
     = (Some ''malformed resume file'', sampleOptions\<lparr>Resume := True, resumeCfg := Some ()\<rparr>)
   \<and> configureResume malformedWorld sampleOptions
     = (None, sampleOptions\<lparr>resumeCfg := Some ()\<rparr>)"
  using resume_load[of sampleWorld "sampleOptions\<lparr>Resume := True\<rparr>"]
    resume_load[of malformedWorld "sampleOptions\<lparr>Resume := True\<rparr>"]
    resume_load[of malformedWorld sampleOptions]
  by (simp add: sampleWorld_def malformedWorld_def sampleOptions_def)

text \<open>
  C9: \<open>ShouldSaveResume\<close> returns true for every configuration, whether or not the
  resume flag is set.
\<close>

theorem ShouldSaveResume_always: "ShouldSaveResume options = True"
  by (simp add: ShouldSaveResume_def)

end
